theory Spec2Isabelle
  imports Complex_Main "HOL-Library.Word" "HOL-Library.Signed_Division"
begin

unbundle bit_operations_syntax

section \<open>Machine integers\<close>

text \<open>
  The programs use the C++ type \<open>int\<close>, taken here as a 32-bit two's-complement value.
  \<open>+\<close> on \<open>cint\<close> wraps around, \<open>sint\<close> reads the signed value. The comparisons of
  the source (\<open>addr >= 0\<close>, \<open>val < 0\<close>) are comparisons of signed values and are written
  on \<open>sint\<close>.
\<close>

type_synonym cint = "32 word"

text \<open>
  The operator \<open>&&\<close> on two \<open>int\<close> operands: each operand is converted to \<open>bool\<close>
  (nonzero is true), the conjunction is a \<open>bool\<close>, and storing it in an \<open>int\<close> gives
  1 or 0.
\<close>

definition logical_and :: "cint \<Rightarrow> cint \<Rightarrow> cint" where
  "logical_and a b = (if a \<noteq> 0 \<and> b \<noteq> 0 then 1 else 0)"

text \<open>The operator \<open>>>\<close> on a signed \<open>int\<close>: the arithmetic shift.\<close>

definition shift_right :: "cint \<Rightarrow> nat \<Rightarrow> cint" where
  "shift_right a n = signed_drop_bit n a"

text \<open>The operator \<open><<\<close> on \<open>int\<close>: the bits move up, those beyond bit 31 are lost.\<close>

definition shift_left :: "cint \<Rightarrow> nat \<Rightarrow> cint" where
  "shift_left a n = push_bit n a"

text \<open>The operator \<open>%\<close> on \<open>int\<close>: the remainder of the division that truncates
  towards zero.\<close>

definition c_rem :: "cint \<Rightarrow> cint \<Rightarrow> cint" where
  "c_rem a b = word_of_int (sint a smod sint b)"

section \<open>eval.cpp: the class CPUSim16Bit\<close>

text \<open>
  \<open>regmap\<close> maps a register name to the address of one of the four register fields;
  \<open>reg\<close> names these four addresses.
\<close>

datatype reg = Addr_AX | Addr_BX | Addr_CX | Addr_DX

record CPUSim16Bit =
  AX :: cint
  BX :: cint
  CX :: cint
  DX :: cint
  memory :: "cint list"
  regmap :: "string \<rightharpoonup> reg"
  program :: "string list"

text \<open>The array \<open>int memory[65535]\<close> has 65535 elements, with indices 0 to 65534.\<close>

definition MEMORY_SIZE :: nat where
  "MEMORY_SIZE = 65535"

text \<open>
  The state after the default member initialisers and the constructor body: registers
  and memory are zero, the four names are registered, the program is empty.
\<close>

definition CPUSim16Bit_new :: CPUSim16Bit where
  "CPUSim16Bit_new =
     \<lparr>AX = 0, BX = 0, CX = 0, DX = 0,
      memory = replicate MEMORY_SIZE 0,
      regmap = [''AX'' \<mapsto> Addr_AX, ''BX'' \<mapsto> Addr_BX, ''CX'' \<mapsto> Addr_CX, ''DX'' \<mapsto> Addr_DX],
      program = []\<rparr>"

text \<open>
  An array access \<open>memory[i]\<close> with an \<open>int\<close> index. C++ does not check the index; an
  access outside the array has undefined behaviour, which the model reports as the
  fault \<open>OutOfBounds\<close> instead of giving it a value.
\<close>

datatype fault = OutOfBounds

definition in_bounds :: "cint list \<Rightarrow> cint \<Rightarrow> bool" where
  "in_bounds m i = (0 \<le> sint i \<and> nat (sint i) < length m)"

definition array_get :: "cint list \<Rightarrow> cint \<Rightarrow> fault + cint" where
  "array_get m i = (if in_bounds m i then Inr (m ! nat (sint i)) else Inl OutOfBounds)"

definition array_set :: "cint list \<Rightarrow> cint \<Rightarrow> cint \<Rightarrow> fault + cint list" where
  "array_set m i x = (if in_bounds m i then Inr (m[nat (sint i) := x]) else Inl OutOfBounds)"

text \<open>
  \<^verbatim>\<open>
  void storeWord(int addr, int value){
      if(addr>=0 && addr<=65535)
      {
          memory[addr] = value && 0xFF;
          memory[addr+1] = (value>>8)&0xFF;
      }
  }
  \<close>
\<close>

definition storeWord :: "CPUSim16Bit \<Rightarrow> cint \<Rightarrow> cint \<Rightarrow> fault + CPUSim16Bit" where
  "storeWord s addr value' =
     (if 0 \<le> sint addr \<and> sint addr \<le> 65535 then
        (case array_set (memory s) addr (logical_and value' 0xFF) of
           Inl e \<Rightarrow> Inl e
         | Inr m1 \<Rightarrow>
            (case array_set m1 (addr + 1) (shift_right value' 8 AND 0xFF) of
               Inl e \<Rightarrow> Inl e
             | Inr m2 \<Rightarrow> Inr (s\<lparr>memory := m2\<rparr>)))
      else Inr s)"

text \<open>
  \<^verbatim>\<open>
  int loadWord(int addr){
      if(addr>=0 && addr<=65535)
      {
          return ((memory[addr+1]<<8)| (memory[addr]));
      }
      return 0;
  }
  \<close>
\<close>

definition loadWord :: "CPUSim16Bit \<Rightarrow> cint \<Rightarrow> fault + cint" where
  "loadWord s addr =
     (if 0 \<le> sint addr \<and> sint addr \<le> 65535 then
        (case array_get (memory s) (addr + 1) of
           Inl e \<Rightarrow> Inl e
         | Inr hi \<Rightarrow>
            (case array_get (memory s) addr of
               Inl e \<Rightarrow> Inl e
             | Inr lo \<Rightarrow> Inr (shift_left hi 8 OR lo)))
      else Inr 0)"

text \<open>\<open>loadProgram\<close> copies its argument into \<open>program\<close>.\<close>

definition loadProgram :: "CPUSim16Bit \<Rightarrow> string list \<Rightarrow> CPUSim16Bit" where
  "loadProgram s prog = s\<lparr>program := prog\<rparr>"

text \<open>The bodies of \<open>run\<close> and \<open>execute\<close> hold a comment and no statement.\<close>

definition run :: "CPUSim16Bit \<Rightarrow> CPUSim16Bit" where
  "run s = s"

definition execute :: "CPUSim16Bit \<Rightarrow> CPUSim16Bit" where
  "execute s = s"

definition isRegister :: "CPUSim16Bit \<Rightarrow> string \<Rightarrow> bool" where
  "isRegister s name = (regmap s name \<noteq> None)"

text \<open>
  \<^verbatim>\<open>
  int wrap16(int val){
      while (val <0) val += 65535;
      return val % 65536;
  }
  \<close>
  The loop is \<open>wrap16_loop\<close>; it is a total function by the termination proof below.
\<close>

function wrap16_loop :: "cint \<Rightarrow> cint" where
  "wrap16_loop val = (if sint val < 0 then wrap16_loop (val + 65535) else val)"
  by pat_completeness auto
termination
proof (relation "measure (\<lambda>val. nat (- sint val))")
  show "wf (measure (\<lambda>val :: cint. nat (- sint val)))"
    by simp
next
  fix val :: cint
  assume neg: "sint val < 0"
  have lo: "- (2 ^ 31) \<le> sint val"
    using sint_ge [of val] by simp
  have "sint (val + 65535) = signed_take_bit 31 (sint val + sint (65535 :: cint))"
    by (simp add: sint_word_ariths)
  also have "sint (65535 :: cint) = 65535"
    by simp
  also have "signed_take_bit 31 (sint val + 65535) = sint val + 65535"
    using lo neg by (intro signed_take_bit_int_eq_self) simp_all
  finally have "sint (val + 65535) = sint val + 65535" .
  with neg show "(val + 65535, val) \<in> measure (\<lambda>val. nat (- sint val))"
    by simp
qed

definition wrap16 :: "cint \<Rightarrow> cint" where
  "wrap16 val = c_rem (wrap16_loop val) 65536"

section \<open>OperatorOverloading.cpp: the class Test\<close>

text \<open>
  Both operators take their right operand by reference and write to \<open>*this\<close>, so the
  two operands may be one object. Objects therefore live in a store and the operators
  take the locations of \<open>*this\<close> and of \<open>obj\<close>; a reference always designates an
  object, so the store is total. The returned \<open>Test\<close> is a new object, returned by value.
  The addition is the addition of \<open>int\<close>, wrapping around at 32 bits.
\<close>

record Test =
  value' :: cint

type_synonym ref = nat

type_synonym store = "ref \<Rightarrow> Test"

text \<open>The converting constructor \<open>Test(int i) { value = i; }\<close>.\<close>

definition Test_of_int :: "cint \<Rightarrow> Test" where
  "Test_of_int i = \<lparr>value' = i\<rparr>"

text \<open>
  \<^verbatim>\<open>
  Test operator +(Test &obj)
  {
      value = value + obj.value;
      return value;
  }
  \<close>
  The \<open>int\<close> named in the return statement is converted by \<open>Test(int)\<close>.
\<close>

definition operator_plus :: "store \<Rightarrow> ref \<Rightarrow> ref \<Rightarrow> store \<times> Test" where
  "operator_plus h this obj =
     (let h' = h(this := (h this)\<lparr>value' := value' (h this) + value' (h obj)\<rparr>)
      in (h', Test_of_int (value' (h' this))))"

text \<open>
  \<^verbatim>\<open>
  Test operator +=(Test &obj)
  {
      this->value = this->value + obj.value;
      return *this;
  }
  \<close>
  The result is a copy of \<open>*this\<close> after the assignment.
\<close>

definition operator_plus_assign :: "store \<Rightarrow> ref \<Rightarrow> ref \<Rightarrow> store \<times> Test" where
  "operator_plus_assign h this obj =
     (let h' = h(this := (h this)\<lparr>value' := value' (h this) + value' (h obj)\<rparr>)
      in (h', h' this))"

text \<open>The friend \<open>operator ++\<close>: \<open>obj1.value++\<close>.\<close>

definition operator_incr :: "store \<Rightarrow> ref \<Rightarrow> store" where
  "operator_incr h obj1 = h(obj1 := (h obj1)\<lparr>value' := value' (h obj1) + 1\<rparr>)"

text \<open>The store of \<open>main\<close> after \<open>Test T1(10), T2(20)\<close>: \<open>T1\<close> at 0, \<open>T2\<close> at 1;
  the other locations, which \<open>main\<close> does not use, hold 0.\<close>

definition main_store :: store where
  "main_store = (\<lambda>_. Test_of_int 0)(0 := Test_of_int 10, 1 := Test_of_int 20)"

section \<open>Floating point\<close>

text \<open>
  \<open>float\<close> and \<open>double\<close> are the binary formats with 24 and 53 significant bits. A
  finite value of either format is a real number, and the result of an operation or a
  conversion is its exact value rounded to the nearest value of the target format, ties
  to the even significand. The exponent range is not modelled: every value computed by
  the code below is 0 or has a magnitude between \<open>1/8\<close> and \<open>2 ^ 31\<close>, far inside
  the normal range of both formats, so no infinity, NaN or subnormal value arises.
  Operands are evaluated in the precision of their type.
\<close>

text \<open>The exponent \<open>e\<close> of a nonzero \<open>x\<close>: \<open>2 ^ e \<le> |x| < 2 ^ (e + 1)\<close>.\<close>

definition float_exponent :: "real \<Rightarrow> int" where
  "float_exponent x = \<lfloor>log 2 \<bar>x\<bar>\<rfloor>"

text \<open>Rounding to the nearest integer, a tie going to the even neighbour.\<close>

definition round_half_even :: "real \<Rightarrow> int" where
  "round_half_even y =
     (if y - of_int \<lfloor>y\<rfloor> < 1 / 2 then \<lfloor>y\<rfloor>
      else if 1 / 2 < y - of_int \<lfloor>y\<rfloor> then \<lfloor>y\<rfloor> + 1
      else if even \<lfloor>y\<rfloor> then \<lfloor>y\<rfloor> else \<lfloor>y\<rfloor> + 1)"

text \<open>
  Rounding to \<open>p\<close> significant bits: \<open>x\<close> is scaled so that its significand is an
  integer of \<open>p\<close> bits, rounded, and scaled back.
\<close>

definition round_to_precision :: "nat \<Rightarrow> real \<Rightarrow> real" where
  "round_to_precision p x =
     (if x = 0 then 0
      else of_int (round_half_even (x * 2 powi (int p - 1 - float_exponent x)))
             * 2 powi (float_exponent x - (int p - 1)))"

definition to_double :: "real \<Rightarrow> real" where
  "to_double x = round_to_precision 53 x"

definition to_float :: "real \<Rightarrow> real" where
  "to_float x = round_to_precision 24 x"

text \<open>The conversions of an \<open>int\<close> to \<open>double\<close> and to \<open>float\<close>.\<close>

definition int_to_double :: "cint \<Rightarrow> real" where
  "int_to_double i = to_double (real_of_int (sint i))"

definition int_to_float :: "cint \<Rightarrow> real" where
  "int_to_float i = to_float (real_of_int (sint i))"

section \<open>Inheritance/multilvl.cpp: the class StdResult\<close>

text \<open>
  \<open>StdResult\<close> derives from \<open>StdMarks\<close>, which derives from \<open>Student\<close>; an object holds
  the fields of all three. \<open>per\<close> is a \<open>float\<close>.
\<close>

record StdResult =
  rollno :: cint
  name :: string
  s1 :: cint
  s2 :: cint
  s3 :: cint
  s4 :: cint
  s5 :: cint
  s6 :: cint
  per :: real

text \<open>
  \<^verbatim>\<open>
  void calc()
  {
      per = (s1+s2+s3+s4+s5+s6)/6.0;
      cout<<"\n\n Total Percentage : "<<per;
  }
  \<close>
  The sum is an \<open>int\<close>; it is converted to \<open>double\<close> and divided by the \<open>double\<close>
  6.0, and the assignment converts the quotient to \<open>float\<close>. The text written to
  \<open>cout\<close> is not part of the state.
\<close>

definition calc :: "StdResult \<Rightarrow> StdResult" where
  "calc s = s\<lparr>per := to_float (to_double
               (int_to_double (s1 s + s2 s + s3 s + s4 s + s5 s + s6 s) / to_double 6))\<rparr>"

section \<open>solutions/1.cpp: the class Car\<close>

text \<open>\<open>Car\<close> derives from \<open>Vehicle\<close> and adds no field.\<close>

record Car =
  vehicleId :: string
  type' :: string
  ratePerKm :: cint

text \<open>
  \<^verbatim>\<open>
  void calculateFare(int distance, int days) {
      float fare = distance * ratePerKm;
      if (days > 2) fare *= 0.9;
      cout << "Fare with long-term discount: \u20B9" << fare << endl;
  }
  \<close>
  The function returns nothing and writes the fare to \<open>cout\<close>; the model returns the
  value of \<open>fare\<close> that is written. The product is an \<open>int\<close> converted to \<open>float\<close>.
  In \<open>fare *= 0.9\<close> the \<open>float\<close> is converted to \<open>double\<close>, multiplied by the
  \<open>double\<close> nearest to 0.9, and the product is converted back to \<open>float\<close>.
\<close>

definition calculateFare :: "Car \<Rightarrow> cint \<Rightarrow> cint \<Rightarrow> real" where
  "calculateFare c distance days =
     (let fare = int_to_float (distance * ratePerKm c)
      in if 2 < sint days then to_float (to_double (to_double fare * to_double (9 / 10)))
         else fare)"

section \<open>Facts about the operators on \<open>int\<close>\<close>

lemma logical_and_0xFF: "logical_and v 0xFF = (if v = 0 then 0 else 1)"
  by (simp add: logical_and_def)

text \<open>\<open>(value>>8)&0xFF\<close> is the second byte of \<open>value\<close>, whatever its sign.\<close>

lemma shift_right_high_byte: "shift_right v 8 AND 0xFF = take_bit 8 (drop_bit 8 v)"
proof -
  have m: "(0xFF :: cint) = mask 8"
    by (simp add: mask_eq_exp_minus_1)
  show ?thesis
    unfolding shift_right_def m
    by (rule bit_word_eqI) (auto simp: bit_simps)
qed

lemma sint_succ:
  fixes addr :: cint
  assumes "0 \<le> sint addr" "sint addr \<le> 65535"
  shows "sint (addr + 1) = sint addr + 1"
proof -
  have "sint (addr + 1) = signed_take_bit 31 (sint addr + sint (1 :: cint))"
    by (simp add: sint_word_ariths)
  also have "\<dots> = signed_take_bit 31 (sint addr + 1)"
    by simp
  also have "\<dots> = sint addr + 1"
    using assms by (intro signed_take_bit_int_eq_self) simp_all
  finally show ?thesis .
qed

lemma nat_sint_succ:
  "0 \<le> sint (addr::cint) \<Longrightarrow> sint addr \<le> 65535 \<Longrightarrow> nat (sint (addr + 1)) = nat (sint addr) + 1"
  by (simp add: sint_succ nat_add_distrib)

lemma little_endian_value:
  fixes hi lo :: cint
  assumes "hi \<le> 0xFF" "lo \<le> 0xFF"
  shows "unat (shift_left hi 8 OR lo) = 256 * unat hi + unat lo"
proof -
  have a: "unat hi < 256" and b: "unat lo < 256"
    using assms by (simp_all add: word_le_nat_alt)
  have "unat (hi * 256) = unat hi * 256 mod 2 ^ 32"
    by (simp add: unat_word_ariths)
  also have "\<dots> = unat hi * 256"
    using a by simp
  finally have hi8: "unat (push_bit 8 hi) = push_bit 8 (unat hi)"
    by (simp add: push_bit_eq_mult)
  have lo8: "take_bit 8 (unat lo) = unat lo"
    using b by (simp add: take_bit_nat_eq_self)
  have "push_bit 8 (unat hi) AND take_bit 8 (unat lo) = 0"
    by (simp add: bit_eq_iff bit_simps)
  then have "push_bit 8 (unat hi) + take_bit 8 (unat lo) = push_bit 8 (unat hi) OR take_bit 8 (unat lo)"
    by (rule disjunctive_add_eq_or)
  then have "push_bit 8 (unat hi) OR unat lo = 256 * unat hi + unat lo"
    by (simp add: lo8 push_bit_eq_mult)
  then show ?thesis
    by (simp add: shift_left_def unsigned_or_eq hi8)
qed

section \<open>The memory accessors of CPUSim16Bit\<close>

lemma in_bounds_addr:
  "length m = MEMORY_SIZE \<Longrightarrow> 0 \<le> sint addr \<Longrightarrow> sint addr \<le> 65533 \<Longrightarrow> in_bounds m addr"
  by (simp add: in_bounds_def MEMORY_SIZE_def)

lemma in_bounds_succ:
  "length m = MEMORY_SIZE \<Longrightarrow> 0 \<le> sint addr \<Longrightarrow> sint addr \<le> 65533 \<Longrightarrow> in_bounds m (addr + 1)"
  by (simp add: in_bounds_def MEMORY_SIZE_def sint_succ)

text \<open>
  Where both writes fall inside the array, that is for \<open>0 \<le> addr \<le> 65533\<close>,
  \<open>storeWord(addr, value)\<close> sets \<open>memory[addr]\<close> to the result of the logical
  \<open>value && 0xFF\<close>, which is 1 when \<open>value\<close> is nonzero and 0 when it is zero, and sets
  \<open>memory[addr+1]\<close> to \<open>(value >> 8) & 0xFF\<close>; every other cell and every other field
  keeps its content.
\<close>

theorem storeWord_in_range:
  assumes len: "length (memory s) = MEMORY_SIZE"
    and lo: "0 \<le> sint addr" and hi: "sint addr \<le> 65533"
  shows "storeWord s addr v =
           Inr (s\<lparr>memory := (memory s)[nat (sint addr) := (if v = 0 then 0 else 1),
                                        nat (sint addr) + 1 := shift_right v 8 AND 0xFF]\<rparr>)
         \<and> (memory s)[nat (sint addr) := (if v = 0 then 0 else 1),
                       nat (sint addr) + 1 := shift_right v 8 AND 0xFF] ! nat (sint addr)
             = (if v = 0 then 0 else 1)
         \<and> (memory s)[nat (sint addr) := (if v = 0 then 0 else 1),
                       nat (sint addr) + 1 := shift_right v 8 AND 0xFF] ! (nat (sint addr) + 1)
             = shift_right v 8 AND 0xFF"
proof -
  have b0: "in_bounds (memory s) addr"
    using assms by (rule in_bounds_addr)
  have b1: "in_bounds ((memory s)[nat (sint addr) := x]) (addr + 1)" for x
    using assms by (intro in_bounds_succ) simp_all
  have n1: "nat (sint (addr + 1)) = nat (sint addr) + 1"
    using lo hi by (intro nat_sint_succ) simp_all
  have i0: "nat (sint addr) < length (memory s)"
    and i1: "nat (sint addr) + 1 < length (memory s)"
    using assms by (simp_all add: MEMORY_SIZE_def)
  have "storeWord s addr v =
           Inr (s\<lparr>memory := (memory s)[nat (sint addr) := (if v = 0 then 0 else 1),
                                        nat (sint addr) + 1 := shift_right v 8 AND 0xFF]\<rparr>)"
    using lo hi b0 b1 n1 by (simp add: storeWord_def array_set_def logical_and_0xFF)
  moreover have "(memory s)[nat (sint addr) := (if v = 0 then 0 else 1),
                       nat (sint addr) + 1 := shift_right v 8 AND 0xFF] ! nat (sint addr)
             = (if v = 0 then 0 else 1)"
    using i0 by (simp add: nth_list_update)
  moreover have "(memory s)[nat (sint addr) := (if v = 0 then 0 else 1),
                       nat (sint addr) + 1 := shift_right v 8 AND 0xFF] ! (nat (sint addr) + 1)
             = shift_right v 8 AND 0xFF"
    using i1 by (simp add: nth_list_update)
  ultimately show ?thesis by blast
qed

text \<open>
  The theorem at \<open>storeWord(10, 0x1234)\<close> on a new simulator: cell 10 receives 1, not
  the low byte \<open>0x34\<close>, and cell 11 receives the high byte \<open>0x12\<close>.
\<close>

theorem storeWord_in_range_witness:
  "length (memory CPUSim16Bit_new) = MEMORY_SIZE \<and> 0 \<le> sint (10 :: cint)
   \<and> sint (10 :: cint) \<le> 65533
   \<and> storeWord CPUSim16Bit_new 10 0x1234 =
       Inr (CPUSim16Bit_new\<lparr>memory := (replicate MEMORY_SIZE 0)[10 := 1, 11 := 0x12]\<rparr>)"
proof -
  have h1: "length (memory CPUSim16Bit_new) = MEMORY_SIZE"
    by (simp add: CPUSim16Bit_new_def)
  have h2: "0 \<le> sint (10 :: cint)"
    by simp
  have h3: "sint (10 :: cint) \<le> 65533"
    by simp
  show ?thesis
    using h1 h2 h3 storeWord_in_range [OF h1 h2 h3, of "0x1234"]
    by (simp add: shift_right_def CPUSim16Bit_new_def)
qed

text \<open>
  Claim C1. For every address \<open>addr\<close> with \<open>0 \<le> addr \<le> 65535\<close> and every value,
  \<open>storeWord(addr, value)\<close> should set \<open>memory[addr]\<close> to \<open>value && 0xFF\<close> and
  \<open>memory[addr+1]\<close> to \<open>(value >> 8) & 0xFF\<close>. The code at \<open>addr = 65535\<close> on a new
  simulator: the range check passes, \<open>memory[65535]\<close> lies outside the 65535-element
  array, and the call ends in an access out of bounds with no cell set.
\<close>

theorem storeWord_out_of_bounds_at_65535:
  "0 \<le> sint (65535 :: cint) \<and> sint (65535 :: cint) \<le> 65535
   \<and> length (memory CPUSim16Bit_new) = 65535
   \<and> \<not> in_bounds (memory CPUSim16Bit_new) 65535
   \<and> storeWord CPUSim16Bit_new 65535 0x1234 = Inl OutOfBounds"
  by (simp add: storeWord_def array_set_def in_bounds_def CPUSim16Bit_new_def MEMORY_SIZE_def)

text \<open>
  Claim C2. For every call of \<open>storeWord\<close> or \<open>loadWord\<close> whose \<open>addr\<close> passes the
  range check, the indices \<open>addr\<close> and \<open>addr+1\<close> should lie in \<open>[0, 65534]\<close>. The code
  at \<open>addr = 65534\<close> on a new simulator: the check passes, index 65534 is inside the
  array, index \<open>65534 + 1\<close> is outside, and both accessors end in an access out of bounds.
\<close>

theorem accessors_out_of_bounds_at_65534:
  "0 \<le> sint (65534 :: cint) \<and> sint (65534 :: cint) \<le> 65535
   \<and> length (memory CPUSim16Bit_new) = 65535
   \<and> in_bounds (memory CPUSim16Bit_new) 65534
   \<and> \<not> in_bounds (memory CPUSim16Bit_new) (65534 + 1)
   \<and> storeWord CPUSim16Bit_new 65534 0 = Inl OutOfBounds
   \<and> loadWord CPUSim16Bit_new 65534 = Inl OutOfBounds"
  by (simp add: storeWord_def loadWord_def array_set_def array_get_def in_bounds_def
      CPUSim16Bit_new_def MEMORY_SIZE_def)

text \<open>
  Where both reads fall inside the array, that is for \<open>0 \<le> addr \<le> 65533\<close>,
  \<open>loadWord(addr)\<close> returns \<open>(memory[addr+1] << 8) | memory[addr]\<close>; when the two cells
  hold bytes (values from 0 to 255) this is the two-byte little-endian word
  \<open>256 * memory[addr+1] + memory[addr]\<close>, low byte at \<open>addr\<close> and high byte at \<open>addr+1\<close>.
\<close>

theorem loadWord_in_range:
  assumes len: "length (memory s) = MEMORY_SIZE"
    and lo: "0 \<le> sint addr" and hi: "sint addr \<le> 65533"
  shows "loadWord s addr =
           Inr (shift_left (memory s ! (nat (sint addr) + 1)) 8 OR memory s ! nat (sint addr))
         \<and> (memory s ! nat (sint addr) \<le> 0xFF \<and> memory s ! (nat (sint addr) + 1) \<le> 0xFF \<longrightarrow>
              unat (shift_left (memory s ! (nat (sint addr) + 1)) 8 OR memory s ! nat (sint addr))
                = 256 * unat (memory s ! (nat (sint addr) + 1)) + unat (memory s ! nat (sint addr)))"
proof -
  have b0: "in_bounds (memory s) addr"
    using assms by (rule in_bounds_addr)
  have b1: "in_bounds (memory s) (addr + 1)"
    using assms by (rule in_bounds_succ)
  have n1: "nat (sint (addr + 1)) = nat (sint addr) + 1"
    using lo hi by (intro nat_sint_succ) simp_all
  have "loadWord s addr =
           Inr (shift_left (memory s ! (nat (sint addr) + 1)) 8 OR memory s ! nat (sint addr))"
    using lo hi b0 b1 n1 by (simp add: loadWord_def array_get_def)
  then show ?thesis
    by (simp add: little_endian_value)
qed

text \<open>
  The theorem on a memory holding \<open>0x34\<close> at 10 and \<open>0x12\<close> at 11: \<open>loadWord(10)\<close>
  returns \<open>0x1234\<close>.
\<close>

theorem loadWord_in_range_witness:
  "length (memory (CPUSim16Bit_new\<lparr>memory := (replicate MEMORY_SIZE 0)[10 := 0x34, 11 := 0x12]\<rparr>))
     = MEMORY_SIZE
   \<and> 0 \<le> sint (10 :: cint) \<and> sint (10 :: cint) \<le> 65533
   \<and> (replicate MEMORY_SIZE (0 :: cint))[10 := 0x34, 11 := 0x12] ! 10 \<le> 0xFF
   \<and> (replicate MEMORY_SIZE (0 :: cint))[10 := 0x34, 11 := 0x12] ! 11 \<le> 0xFF
   \<and> loadWord (CPUSim16Bit_new\<lparr>memory := (replicate MEMORY_SIZE 0)[10 := 0x34, 11 := 0x12]\<rparr>) 10
       = Inr 0x1234"
proof -
  let ?s = "CPUSim16Bit_new\<lparr>memory := (replicate MEMORY_SIZE 0)[10 := 0x34, 11 := 0x12]\<rparr>"
  have h1: "length (memory ?s) = MEMORY_SIZE"
    by simp
  have h2: "0 \<le> sint (10 :: cint)"
    by simp
  have h3: "sint (10 :: cint) \<le> 65533"
    by simp
  show ?thesis
    using h1 h2 h3 loadWord_in_range [OF h1 h2 h3]
    by (simp add: shift_left_def MEMORY_SIZE_def)
qed

text \<open>
  Claim C3. For every address \<open>addr\<close> with \<open>0 \<le> addr \<le> 65535\<close>, \<open>loadWord(addr)\<close>
  should return \<open>(memory[addr+1] << 8) | memory[addr]\<close>, the little-endian word at
  \<open>addr\<close>. The code at \<open>addr = 65535\<close> on a new simulator: the range check passes,
  \<open>memory[65536]\<close> and \<open>memory[65535]\<close> lie outside the 65535-element array, and the
  call ends in an access out of bounds with no word returned.
\<close>

theorem loadWord_out_of_bounds_at_65535:
  "0 \<le> sint (65535 :: cint) \<and> sint (65535 :: cint) \<le> 65535
   \<and> length (memory CPUSim16Bit_new) = 65535
   \<and> \<not> in_bounds (memory CPUSim16Bit_new) 65535
   \<and> \<not> in_bounds (memory CPUSim16Bit_new) (65535 + 1)
   \<and> loadWord CPUSim16Bit_new 65535 = Inl OutOfBounds"
  by (simp add: loadWord_def array_get_def in_bounds_def CPUSim16Bit_new_def MEMORY_SIZE_def)

text \<open>
  Claim C9. For every address \<open>addr\<close> with \<open>addr < 0\<close> or \<open>addr > 65535\<close>,
  \<open>loadWord(addr)\<close> returns 0, and \<open>storeWord(addr, value)\<close> leaves the memory array
  (and the whole object) unchanged for every value.
\<close>

theorem accessors_reject_out_of_range:
  "sint addr < 0 \<or> 65535 < sint addr \<Longrightarrow>
     loadWord s addr = Inr 0 \<and> storeWord s addr v = Inr s"
  by (auto simp: loadWord_def storeWord_def)

text \<open>The theorem at the addresses \<open>-1\<close> and 65536, one on each side of the range.\<close>

theorem accessors_reject_out_of_range_witness:
  "(sint (- 1 :: cint) < 0 \<or> 65535 < sint (- 1 :: cint))
   \<and> loadWord CPUSim16Bit_new (- 1) = Inr 0
   \<and> storeWord CPUSim16Bit_new (- 1) 0x1234 = Inr CPUSim16Bit_new
   \<and> (sint (65536 :: cint) < 0 \<or> 65535 < sint (65536 :: cint))
   \<and> loadWord CPUSim16Bit_new 65536 = Inr 0
   \<and> storeWord CPUSim16Bit_new 65536 0x1234 = Inr CPUSim16Bit_new"
proof -
  have h1: "sint (- 1 :: cint) < 0 \<or> 65535 < sint (- 1 :: cint)"
    by simp
  have h2: "sint (65536 :: cint) < 0 \<or> 65535 < sint (65536 :: cint)"
    by simp
  show ?thesis
    using h1 h2 accessors_reject_out_of_range [OF h1, of CPUSim16Bit_new "0x1234"]
      accessors_reject_out_of_range [OF h2, of CPUSim16Bit_new "0x1234"]
    by simp
qed

section \<open>run and execute\<close>

text \<open>
  Claim C4. For every state of a \<open>CPUSim16Bit\<close> object, \<open>run()\<close> and \<open>execute()\<close>
  change nothing: the registers \<open>AX\<close>, \<open>BX\<close>, \<open>CX\<close>, \<open>DX\<close>, the memory array, the
  register map and the loaded program are as before the call.
\<close>

theorem run_execute_no_effect:
  "run s = s \<and> execute s = s
   \<and> AX (run s) = AX s \<and> BX (run s) = BX s \<and> CX (run s) = CX s \<and> DX (run s) = DX s
   \<and> memory (run s) = memory s \<and> regmap (run s) = regmap s \<and> program (run s) = program s
   \<and> AX (execute s) = AX s \<and> BX (execute s) = BX s \<and> CX (execute s) = CX s
   \<and> DX (execute s) = DX s \<and> memory (execute s) = memory s
   \<and> regmap (execute s) = regmap s \<and> program (execute s) = program s"
  by (simp add: run_def execute_def)

section \<open>wrap16\<close>

lemma wrap16_loop_nonneg: "0 \<le> sint (wrap16_loop val)"
proof (induction val rule: wrap16_loop.induct)
  case (1 val)
  show ?case
  proof (cases "sint val < 0")
    case True
    with 1 show ?thesis by simp
  next
    case False
    then show ?thesis by simp
  qed
qed

lemma c_rem_65536:
  fixes r :: cint
  assumes "0 \<le> sint r"
  shows "0 \<le> sint (c_rem r 65536) \<and> sint (c_rem r 65536) \<le> 65535"
proof -
  have m: "sint r smod sint (65536 :: cint) = sint r mod 65536"
    using assms by (simp add: signed_modulo_int_def sgn_if)
  have b: "0 \<le> sint r mod 65536" "sint r mod 65536 < 65536"
    by simp_all
  have "sint (word_of_int (sint r mod 65536) :: cint) = sint r mod 65536"
    using b by (simp add: sint_sbintrunc' signed_take_bit_int_eq_self)
  with m b show ?thesis
    by (simp add: c_rem_def)
qed

text \<open>
  Claim C10. For every \<open>int val\<close>, \<open>wrap16(val)\<close> terminates and returns a value in the
  range \<open>[0, 65535]\<close>. Termination is the termination proof of \<open>wrap16_loop\<close>, which
  makes \<open>wrap16\<close> a total function; the theorem bounds its value.
\<close>

theorem wrap16_range: "0 \<le> sint (wrap16 val) \<and> sint (wrap16 val) \<le> 65535"
  unfolding wrap16_def by (rule c_rem_65536) (rule wrap16_loop_nonneg)

section \<open>The operators of Test\<close>

text \<open>
  Claim C7, as amended. For every pair of \<open>Test\<close> objects \<open>a\<close> and \<open>b\<close>, \<open>a += b\<close> sets
  \<open>a.value\<close> to the previous \<open>a.value\<close> plus the previous \<open>b.value\<close> and returns an
  object holding that sum; when \<open>b\<close> is an object other than \<open>a\<close>, \<open>b\<close> is unchanged.
\<close>

theorem operator_plus_assign_effect:
  "value' (fst (operator_plus_assign h a b) a) = value' (h a) + value' (h b)
   \<and> value' (snd (operator_plus_assign h a b)) = value' (h a) + value' (h b)
   \<and> (b \<noteq> a \<longrightarrow> fst (operator_plus_assign h a b) b = h b)"
  by (simp add: operator_plus_assign_def Let_def)

text \<open>The theorem at \<open>T1 += T2\<close> of \<open>main\<close>: \<open>T1\<close> becomes 30, \<open>T2\<close> stays 20.\<close>

theorem operator_plus_assign_effect_witness:
  "(1 :: ref) \<noteq> 0
   \<and> value' (fst (operator_plus_assign main_store 0 1) 0) = 30
   \<and> value' (snd (operator_plus_assign main_store 0 1)) = 30
   \<and> value' (fst (operator_plus_assign main_store 0 1) 1) = 20"
  using operator_plus_assign_effect [of main_store 0 1]
  by (simp add: main_store_def Test_of_int_def)

text \<open>
  Claim C7 as stated, with \<open>b.value\<close> unchanged for every pair, fails when both operands
  are one object: after \<open>T1 += T1\<close> the right operand holds 20, not its previous 10.
\<close>

theorem operator_plus_assign_alias_counterexample:
  "value' (main_store 0) = 10
   \<and> value' (fst (operator_plus_assign main_store 0 0) 0) = 20
   \<and> value' (fst (operator_plus_assign main_store 0 0) 0) \<noteq> value' (main_store 0)"
  by (simp add: operator_plus_assign_def main_store_def Test_of_int_def Let_def)

text \<open>
  Claim C8, as amended. For every pair of \<open>Test\<close> objects \<open>a\<close> and \<open>b\<close>, evaluating
  \<open>a + b\<close> writes to its left operand: afterwards \<open>a.value\<close> is the previous \<open>a.value\<close>
  plus the previous \<open>b.value\<close>, and the returned object holds that same sum; when \<open>b\<close>
  is an object other than \<open>a\<close>, \<open>b\<close> is unchanged.
\<close>

theorem operator_plus_effect:
  "value' (fst (operator_plus h a b) a) = value' (h a) + value' (h b)
   \<and> value' (snd (operator_plus h a b)) = value' (h a) + value' (h b)
   \<and> (b \<noteq> a \<longrightarrow> fst (operator_plus h a b) b = h b)"
  by (simp add: operator_plus_def Test_of_int_def Let_def)

text \<open>The theorem at \<open>T1 + T2\<close> on the objects of \<open>main\<close>: \<open>T1\<close> becomes 30, the
  result holds 30, \<open>T2\<close> stays 20.\<close>

theorem operator_plus_effect_witness:
  "(1 :: ref) \<noteq> 0
   \<and> value' (fst (operator_plus main_store 0 1) 0) = 30
   \<and> value' (snd (operator_plus main_store 0 1)) = 30
   \<and> value' (fst (operator_plus main_store 0 1) 1) = 20"
  using operator_plus_effect [of main_store 0 1]
  by (simp add: main_store_def Test_of_int_def)

text \<open>
  Claim C8 as stated, with \<open>b.value\<close> unchanged for every pair, fails when both operands
  are one object: after \<open>T2 + T2\<close> the right operand holds 40, not its previous 20.
\<close>

theorem operator_plus_alias_counterexample:
  "value' (main_store 1) = 20
   \<and> value' (fst (operator_plus main_store 1 1) 1) = 40
   \<and> value' (fst (operator_plus main_store 1 1) 1) \<noteq> value' (main_store 1)"
  by (simp add: operator_plus_def main_store_def Test_of_int_def Let_def)

section \<open>Facts about rounding\<close>

lemma powi_powr: "(2::real) powi e = 2 powr (of_int e)"
  by (simp add: powr_real_of_int power_int_def power_one_over inverse_eq_divide)

lemma float_exponent_bounds:
  assumes "x \<noteq> 0"
  shows "2 powi (float_exponent x) \<le> \<bar>x\<bar>" and "\<bar>x\<bar> < 2 powi (float_exponent x + 1)"
proof -
  have pos: "0 < \<bar>x\<bar>" using assms by simp
  have "\<lfloor>log 2 \<bar>x\<bar>\<rfloor> = float_exponent x" by (simp add: float_exponent_def)
  then have "2 powr (of_int (float_exponent x)) \<le> \<bar>x\<bar> \<and> \<bar>x\<bar> < 2 powr (of_int (float_exponent x + 1))"
    using pos by (subst (asm) floor_log_eq_powr_iff) simp_all
  then show "2 powi (float_exponent x) \<le> \<bar>x\<bar>" and "\<bar>x\<bar> < 2 powi (float_exponent x + 1)"
    by (simp_all add: powi_powr)
qed

lemma float_exponent_eqI:
  assumes "2 powi e \<le> \<bar>x\<bar>" "\<bar>x\<bar> < 2 powi (e + 1)"
  shows "float_exponent x = e"
proof -
  have pos: "0 < \<bar>x\<bar>"
    using assms(1) by (smt (verit) zero_less_power_int)
  show ?thesis
    unfolding float_exponent_def
    using pos assms by (subst floor_log_eq_powr_iff) (simp_all add: powi_powr)
qed

lemma round_half_even_of_int: "round_half_even (of_int n) = n"
  by (simp add: round_half_even_def)

lemma round_half_even_error: "\<bar>of_int (round_half_even y) - y\<bar> \<le> 1 / 2"
  unfolding round_half_even_def by (auto; linarith)

lemma powi_less_imp_less: "(2::real) powi m < 2 powi n \<Longrightarrow> m < n"
proof (rule ccontr)
  assume less: "(2::real) powi m < 2 powi n" and "\<not> m < n"
  then have "n \<le> m" by simp
  then have "(2::real) powi n \<le> 2 powi m"
    by (rule power_int_increasing) simp
  with less show False by simp
qed

lemma round_to_precision_eval:
  assumes "2 powi e \<le> \<bar>x\<bar>" "\<bar>x\<bar> < 2 powi (e + 1)"
  shows "round_to_precision p x =
           of_int (round_half_even (x * 2 powi (int p - 1 - e))) * 2 powi (e - (int p - 1))"
proof -
  have "x \<noteq> 0"
    using assms(1) by (smt (verit) zero_less_power_int)
  then show ?thesis
    by (simp add: round_to_precision_def float_exponent_eqI [OF assms])
qed

lemma round_to_precision_error:
  "\<bar>round_to_precision p x - x\<bar> \<le> \<bar>x\<bar> / 2 ^ p"
proof (cases "x = 0")
  case True
  then show ?thesis by (simp add: round_to_precision_def)
next
  case False
  define e where "e = float_exponent x"
  define s :: real where "s = 2 powi (e - (int p - 1))"
  have spos: "0 < s" by (simp add: s_def)
  have inv: "2 powi (int p - 1 - e) = 1 / s"
    unfolding s_def by (simp add: power_int_diff field_simps)
  have r: "round_to_precision p x = of_int (round_half_even (x / s)) * s"
    using False by (simp add: round_to_precision_def e_def s_def inv [unfolded s_def e_def])
  have "\<bar>of_int (round_half_even (x / s)) - x / s\<bar> \<le> 1 / 2"
    by (rule round_half_even_error)
  then have "\<bar>of_int (round_half_even (x / s)) - x / s\<bar> * s \<le> 1 / 2 * s"
    using spos by (intro mult_right_mono) simp_all
  moreover have "\<bar>of_int (round_half_even (x / s)) - x / s\<bar> * s
                 = \<bar>of_int (round_half_even (x / s)) * s - x\<bar>"
  proof -
    have "(of_int (round_half_even (x / s)) - x / s) * s
            = of_int (round_half_even (x / s)) * s - x"
      using spos by (simp add: left_diff_distrib)
    then have "\<bar>of_int (round_half_even (x / s)) * s - x\<bar>
                 = \<bar>of_int (round_half_even (x / s)) - x / s\<bar> * \<bar>s\<bar>"
      by (simp only: abs_mult [symmetric])
    then show ?thesis using spos by simp
  qed
  ultimately have 1: "\<bar>round_to_precision p x - x\<bar> \<le> s / 2"
    by (simp add: r)
  have "s / 2 = 2 powi e / 2 ^ p"
    unfolding s_def by (simp add: power_int_diff power_int_add field_simps)
  also have "\<dots> \<le> \<bar>x\<bar> / 2 ^ p"
    using float_exponent_bounds(1) [OF False] by (simp add: e_def divide_right_mono)
  finally show ?thesis using 1 by linarith
qed

lemma round_to_precision_of_int:
  assumes "\<bar>k\<bar> < 2 ^ p"
  shows "round_to_precision p (of_int k) = of_int k"
proof (cases "k = 0")
  case True
  then show ?thesis by (simp add: round_to_precision_def)
next
  case False
  define x :: real where "x = of_int k"
  define e where "e = float_exponent x"
  have x0: "x \<noteq> 0" using False by (simp add: x_def)
  have "2 powi e \<le> \<bar>x\<bar>"
    using float_exponent_bounds(1) [OF x0] by (simp add: e_def)
  also have "\<bar>x\<bar> < 2 ^ p"
    using assms unfolding x_def by (metis of_int_abs of_int_less_numeral_power_cancel_iff)
  finally have "(2::real) powi e < 2 powi (int p)"
    by simp
  then have le: "e < int p"
    by (rule powi_less_imp_less)
  have ge: "0 \<le> e"
  proof -
    have "1 \<le> \<bar>k\<bar>" using False by arith
    then have "(1::real) \<le> of_int \<bar>k\<bar>" by linarith
    then have "1 \<le> \<bar>x\<bar>" by (simp add: x_def)
    then have "(2::real) powi 0 \<le> \<bar>x\<bar>" by simp
    moreover have "\<bar>x\<bar> < 2 powi (e + 1)"
      using float_exponent_bounds(2) [OF x0] by (simp add: e_def)
    ultimately have "(2::real) powi 0 < 2 powi (e + 1)" by linarith
    then have "0 < e + 1" by (rule powi_less_imp_less)
    then show ?thesis by simp
  qed
  define n where "n = nat (int p - 1 - e)"
  have n: "int p - 1 - e = int n" using le by (simp add: n_def)
  have "x * 2 powi (int p - 1 - e) = of_int (k * 2 ^ n)"
    by (simp add: n x_def)
  then have "round_half_even (x * 2 powi (int p - 1 - e)) = k * 2 ^ n"
    by (simp only: round_half_even_of_int)
  moreover have "e - (int p - 1) = - int n" using n by simp
  ultimately have "round_to_precision p x = of_int (k * 2 ^ n) * 2 powi (- int n)"
    using x0 by (simp add: round_to_precision_def e_def)
  also have "\<dots> = of_int k"
    by (simp add: power_int_minus field_simps)
  finally show ?thesis by (simp add: x_def)
qed

text \<open>Rounding commutes with scaling by a power of two.\<close>

lemma float_exponent_scale:
  assumes "x \<noteq> 0"
  shows "float_exponent (x * 2 powi k) = float_exponent x + k"
proof (rule float_exponent_eqI)
  have s: "\<bar>x * 2 powi k\<bar> = \<bar>x\<bar> * 2 powi k"
    by (simp add: abs_mult)
  have "2 powi (float_exponent x + k) = 2 powi float_exponent x * (2::real) powi k"
    by (simp add: power_int_add)
  also have "\<dots> \<le> \<bar>x\<bar> * 2 powi k"
    using float_exponent_bounds(1) [OF assms] by (intro mult_right_mono) simp_all
  finally show "2 powi (float_exponent x + k) \<le> \<bar>x * 2 powi k\<bar>"
    by (simp only: s)
  have "\<bar>x\<bar> * 2 powi k < 2 powi (float_exponent x + 1) * (2::real) powi k"
    using float_exponent_bounds(2) [OF assms] by (intro mult_strict_right_mono) simp_all
  also have "\<dots> = 2 powi (float_exponent x + k + 1)"
    by (simp add: power_int_add)
  finally show "\<bar>x * 2 powi k\<bar> < 2 powi (float_exponent x + k + 1)"
    by (simp only: s)
qed

lemma round_to_precision_scale:
  "round_to_precision p (x * 2 powi k) = round_to_precision p x * 2 powi k"
proof (cases "x = 0")
  case True
  then show ?thesis by (simp add: round_to_precision_def)
next
  case False
  have a: "x * 2 powi k * 2 powi (int p - 1 - (float_exponent x + k))
             = x * 2 powi (int p - 1 - float_exponent x)"
    by (simp add: power_int_diff power_int_add)
  have b: "(2::real) powi (float_exponent x + k - (int p - 1))
             = 2 powi (float_exponent x - (int p - 1)) * 2 powi k"
    by (simp add: power_int_diff power_int_add)
  show ?thesis
    using False
    by (simp add: round_to_precision_def float_exponent_scale a b del: power_int_diff)
qed

lemma round_half_even_bound:
  assumes "\<bar>y\<bar> < 2 ^ p"
  shows "\<bar>round_half_even y\<bar> \<le> 2 ^ p"
proof -
  have "\<bar>real_of_int (round_half_even y) - y\<bar> \<le> 1 / 2"
    by (rule round_half_even_error)
  then have "\<bar>real_of_int (round_half_even y)\<bar> < 2 ^ p + 1"
    using assms by linarith
  then have "real_of_int \<bar>round_half_even y\<bar> < real_of_int (2 ^ p + 1)"
    by simp
  then have "\<bar>round_half_even y\<bar> < 2 ^ p + 1"
    by (simp only: of_int_less_iff)
  then show ?thesis by simp
qed

text \<open>A value of \<open>p\<close> significant bits is a value of any larger precision.\<close>

lemma round_to_precision_widen:
  assumes "p < q"
  shows "round_to_precision q (round_to_precision p x) = round_to_precision p x"
proof (cases "x = 0")
  case True
  then show ?thesis by (simp add: round_to_precision_def)
next
  case False
  define e where "e = float_exponent x"
  define n where "n = round_half_even (x * 2 powi (int p - 1 - e))"
  have r: "round_to_precision p x = of_int n * 2 powi (e - (int p - 1))"
    using False by (simp add: round_to_precision_def n_def e_def)
  have "\<bar>x * 2 powi (int p - 1 - e)\<bar> = \<bar>x\<bar> * 2 powi (int p - 1 - e)"
    by (simp add: abs_mult)
  also have "\<dots> < 2 powi (e + 1) * 2 powi (int p - 1 - e)"
    using float_exponent_bounds(2) [OF False] unfolding e_def
    by (intro mult_strict_right_mono) simp_all
  also have "\<dots> = 2 powi (int p)"
    by (simp add: power_int_add [symmetric])
  finally have "\<bar>x * 2 powi (int p - 1 - e)\<bar> < 2 ^ p"
    by simp
  then have "\<bar>n\<bar> \<le> 2 ^ p"
    unfolding n_def by (rule round_half_even_bound)
  also have "(2::int) ^ p < 2 ^ q"
    using assms by simp
  finally have "round_to_precision q (of_int n) = of_int n"
    by (rule round_to_precision_of_int)
  then show ?thesis
    by (simp only: r round_to_precision_scale)
qed

text \<open>The conversion of a \<open>float\<close> to \<open>double\<close> is exact.\<close>

lemma to_double_to_float: "to_double (to_float x) = to_float x"
  unfolding to_double_def to_float_def by (rule round_to_precision_widen) simp

text \<open>Integers below \<open>2 ^ 53\<close> are \<open>double\<close> values, those below \<open>2 ^ 24\<close> are
  \<open>float\<close> values; every \<open>int\<close> converts to \<open>double\<close> exactly.\<close>

lemma to_double_of_int: "\<bar>k\<bar> < 2 ^ 53 \<Longrightarrow> to_double (real_of_int k) = real_of_int k"
  unfolding to_double_def by (rule round_to_precision_of_int)

lemma to_float_of_int: "\<bar>k\<bar> < 2 ^ 24 \<Longrightarrow> to_float (real_of_int k) = real_of_int k"
  unfolding to_float_def by (rule round_to_precision_of_int)

lemma sint_abs_bound: "\<bar>sint (i :: cint)\<bar> \<le> 2 ^ 31"
  using sint_ge [of i] sint_lt [of i] by simp

lemma int_to_double_exact: "int_to_double i = real_of_int (sint i)"
proof -
  have "\<bar>sint i\<bar> < 2 ^ 53"
    using sint_abs_bound [of i] by simp
  then show ?thesis
    unfolding int_to_double_def to_double_def by (rule round_to_precision_of_int)
qed

lemma to_double_6: "to_double 6 = 6"
  using round_to_precision_of_int [of 6 53] by (simp add: to_double_def)

text \<open>A division in \<open>double\<close> followed by the conversion to \<open>float\<close>.\<close>

lemma double_float_error:
  "\<bar>to_float (to_double x) - x\<bar> \<le> \<bar>x\<bar> / 2 ^ 23"
proof -
  define a where "a = \<bar>x\<bar>"
  define u where "u = \<bar>to_double x - x\<bar>"
  define v where "v = \<bar>to_float (to_double x) - to_double x\<bar>"
  have a0: "0 \<le> a" by (simp add: a_def)
  have 1: "u \<le> a / 2 ^ 53"
    unfolding u_def a_def to_double_def by (rule round_to_precision_error)
  have "\<bar>to_double x\<bar> \<le> a + u"
    unfolding a_def u_def by linarith
  moreover have "v \<le> \<bar>to_double x\<bar> / 2 ^ 24"
    unfolding v_def to_float_def by (rule round_to_precision_error)
  ultimately have 2: "v \<le> (a + u) / 2 ^ 24"
    by (simp add: field_simps)
  have 3: "\<bar>to_float (to_double x) - x\<bar> \<le> v + u"
    unfolding v_def u_def by linarith
  have "v + u \<le> a / 2 ^ 23"
    using a0 1 2 by (simp add: field_simps)
  with 3 show ?thesis
    unfolding a_def by linarith
qed

lemma to_double_dvd:
  assumes "n = 6 * k" "\<bar>k\<bar> < 2 ^ 24"
  shows "to_float (to_double (real_of_int n / 6)) = real_of_int k"
proof -
  have "real_of_int n / 6 = real_of_int k" using assms by simp
  moreover have "\<bar>k\<bar> < 2 ^ 53" using assms(2) by simp
  ultimately show ?thesis
    using round_to_precision_of_int [of k 53] round_to_precision_of_int [of k 24] assms(2)
    by (simp add: to_double_def to_float_def)
qed

text \<open>The values that the examples below need.\<close>

lemma to_double_sixth: "to_double (1 / 6) = 6004799503160661 / 36028797018963968"
proof -
  have "to_double (1 / 6) = of_int (round_half_even (1 / 6 * 2 powi (int 53 - 1 - (- 3)))) * 2 powi (- 3 - (int 53 - 1))"
    unfolding to_double_def by (rule round_to_precision_eval) (simp_all add: power_int_minus)
  then show ?thesis
    by (simp add: round_half_even_def power_int_minus)
qed

lemma to_float_sixth:
  "to_float (6004799503160661 / 36028797018963968) = 11184811 / 67108864"
proof -
  have "to_float (6004799503160661 / 36028797018963968) = of_int (round_half_even (6004799503160661 / 36028797018963968 * 2 powi (int 24 - 1 - (- 3)))) * 2 powi (- 3 - (int 24 - 1))"
    unfolding to_float_def by (rule round_to_precision_eval) (simp_all add: power_int_minus)
  then show ?thesis
    by (simp add: round_half_even_def power_int_minus)
qed

lemma to_double_nine_tenths: "to_double (9 / 10) = 8106479329266893 / 9007199254740992"
proof -
  have "to_double (9 / 10) = of_int (round_half_even (9 / 10 * 2 powi (int 53 - 1 - (- 1)))) * 2 powi (- 1 - (int 53 - 1))"
    unfolding to_double_def by (rule round_to_precision_eval) (simp_all add: power_int_minus)
  then show ?thesis
    by (simp add: round_half_even_def power_int_minus)
qed

lemma to_float_nine_tenths: "to_float (8106479329266893 / 9007199254740992) = 15099494 / 16777216"
proof -
  have "to_float (8106479329266893 / 9007199254740992) = of_int (round_half_even (8106479329266893 / 9007199254740992 * 2 powi (int 24 - 1 - (- 1)))) * 2 powi (- 1 - (int 24 - 1))"
    unfolding to_float_def by (rule round_to_precision_eval) (simp_all add: power_int_minus)
  then show ?thesis
    by (simp add: round_half_even_def power_int_minus)
qed

lemma to_double_1350: "to_double (1500 * (8106479329266893 / 9007199254740992)) = 1350"
proof -
  have "to_double (1500 * (8106479329266893 / 9007199254740992)) = of_int (round_half_even (1500 * (8106479329266893 / 9007199254740992) * 2 powi (int 53 - 1 - 10))) * 2 powi (10 - (int 53 - 1))"
    unfolding to_double_def by (rule round_to_precision_eval) (simp_all add: power_int_minus)
  then show ?thesis
    by (simp add: round_half_even_def power_int_minus)
qed

lemma to_double_idem_nine_tenths:
  "to_double (8106479329266893 / 9007199254740992) = 8106479329266893 / 9007199254740992"
proof -
  have "to_double (8106479329266893 / 9007199254740992) = of_int (round_half_even (8106479329266893 / 9007199254740992 * 2 powi (int 53 - 1 - (- 1)))) * 2 powi (- 1 - (int 53 - 1))"
    unfolding to_double_def by (rule round_to_precision_eval) (simp_all add: power_int_minus)
  then show ?thesis
    by (simp add: round_half_even_def power_int_minus)
qed

lemma to_float_1500: "to_float 1500 = 1500"
  using to_float_of_int [of 1500] by simp

lemma to_float_1350: "to_float 1350 = 1350"
  using to_float_of_int [of 1350] by simp

lemma to_double_1500: "to_double 1500 = 1500"
  using to_double_of_int [of 1500] by simp

lemma to_float_1: "to_float 1 = 1"
  using to_float_of_int [of 1] by simp

lemma to_double_1: "to_double 1 = 1"
  using to_double_of_int [of 1] by simp

text \<open>
  The discount: a \<open>float\<close> fare times the \<open>double\<close> 0.9, rounded to \<open>double\<close> and
  then to \<open>float\<close>, stays within \<open>|P| / 2 ^ 22\<close> of nine tenths of the exact amount
  \<open>P\<close>.
\<close>

lemma discount_error:
  fixes P :: real
  defines "f \<equiv> to_float P"
  defines "F \<equiv> to_float (to_double (to_double f * to_double (9 / 10)))"
  shows "\<bar>F - 9 / 10 * P\<bar> \<le> \<bar>P\<bar> / 2 ^ 22"
proof -
  define c :: real where "c = to_double (9 / 10)"
  define fd where "fd = to_double f"
  define g where "g = fd * c"
  define m where "m = to_double g"
  define a where "a = \<bar>P\<bar>"
  have F: "F = to_float m"
    by (simp add: F_def m_def g_def fd_def c_def)
  have c: "0 \<le> c" "c \<le> 1" "\<bar>c - 9 / 10\<bar> \<le> 1 / 2 ^ 53"
    by (simp_all add: c_def to_double_nine_tenths)
  have a0: "0 \<le> a" by (simp add: a_def)
  have u1: "\<bar>f - P\<bar> \<le> a / 2 ^ 24"
    unfolding a_def f_def to_float_def by (rule round_to_precision_error)
  have f: "\<bar>f\<bar> \<le> a + a / 2 ^ 24"
    using u1 unfolding a_def by linarith
  have "\<bar>fd - f\<bar> \<le> \<bar>f\<bar> / 2 ^ 53"
    unfolding fd_def to_double_def by (rule round_to_precision_error)
  also have "\<dots> \<le> (a + a / 2 ^ 24) / 2 ^ 53"
    using f by (rule divide_right_mono) simp
  also have "\<dots> \<le> a / 2 ^ 52"
    using a0 by simp
  finally have u2: "\<bar>fd - f\<bar> \<le> a / 2 ^ 52" .
  have fdP: "\<bar>fd - P\<bar> \<le> a / 2 ^ 24 + a / 2 ^ 52"
    using u1 u2 by linarith
  have fd: "\<bar>fd\<bar> \<le> a + a / 2 ^ 24 + a / 2 ^ 52"
    using fdP unfolding a_def by linarith
  have "\<bar>g\<bar> = c * \<bar>fd\<bar>"
    using c(1) by (simp add: g_def abs_mult)
  also have "\<dots> \<le> \<bar>fd\<bar>"
    using c by (intro mult_left_le_one_le) simp_all
  finally have g: "\<bar>g\<bar> \<le> a + a / 2 ^ 24 + a / 2 ^ 52"
    using fd by linarith
  have "g - 9 / 10 * P = c * (fd - P) + (c - 9 / 10) * P"
    by (simp add: g_def algebra_simps)
  then have "\<bar>g - 9 / 10 * P\<bar> \<le> \<bar>c * (fd - P)\<bar> + \<bar>(c - 9 / 10) * P\<bar>"
    by (simp only: abs_triangle_ineq)
  also have "\<bar>c * (fd - P)\<bar> = c * \<bar>fd - P\<bar>"
    using c(1) by (simp add: abs_mult)
  also have "\<bar>(c - 9 / 10) * P\<bar> = \<bar>c - 9 / 10\<bar> * a"
    by (simp add: abs_mult a_def)
  finally have gP0: "\<bar>g - 9 / 10 * P\<bar> \<le> c * \<bar>fd - P\<bar> + \<bar>c - 9 / 10\<bar> * a" .
  have "c * \<bar>fd - P\<bar> \<le> \<bar>fd - P\<bar>"
    using c by (intro mult_left_le_one_le) simp_all
  moreover have "\<bar>c - 9 / 10\<bar> * a \<le> 1 / 2 ^ 53 * a"
    using c(3) a0 by (rule mult_right_mono)
  ultimately have gP: "\<bar>g - 9 / 10 * P\<bar> \<le> a / 2 ^ 24 + a / 2 ^ 52 + a / 2 ^ 53"
    using gP0 fdP by simp
  have "\<bar>m - g\<bar> \<le> \<bar>g\<bar> / 2 ^ 53"
    unfolding m_def to_double_def by (rule round_to_precision_error)
  also have "\<dots> \<le> (a + a / 2 ^ 24 + a / 2 ^ 52) / 2 ^ 53"
    using g by (rule divide_right_mono) simp
  also have "\<dots> \<le> a / 2 ^ 52"
    using a0 by simp
  finally have u3: "\<bar>m - g\<bar> \<le> a / 2 ^ 52" .
  have m: "\<bar>m\<bar> \<le> a + a / 2 ^ 24 + a / 2 ^ 52 + a / 2 ^ 52"
    using g u3 by linarith
  have "\<bar>F - m\<bar> \<le> \<bar>m\<bar> / 2 ^ 24"
    unfolding F to_float_def by (rule round_to_precision_error)
  also have "\<dots> \<le> (a + a / 2 ^ 24 + a / 2 ^ 52 + a / 2 ^ 52) / 2 ^ 24"
    using m by (rule divide_right_mono) simp
  also have "\<dots> \<le> a / 2 ^ 24 + a / 2 ^ 47"
    using a0 by simp
  finally have u4: "\<bar>F - m\<bar> \<le> a / 2 ^ 24 + a / 2 ^ 47" .
  have "\<bar>F - 9 / 10 * P\<bar> \<le> \<bar>F - m\<bar> + \<bar>m - g\<bar> + \<bar>g - 9 / 10 * P\<bar>"
    by linarith
  also have "\<dots> \<le> (a / 2 ^ 24 + a / 2 ^ 47) + a / 2 ^ 52 + (a / 2 ^ 24 + a / 2 ^ 52 + a / 2 ^ 53)"
    using u4 u3 gP by linarith
  also have "\<dots> \<le> a / 2 ^ 22"
    using a0 by simp
  finally show ?thesis
    by (simp add: a_def)
qed

section \<open>StdResult::calc\<close>

lemma per_calc: "per (calc s) = to_float (to_double (real_of_int (sint (s1 s + s2 s + s3 s + s4 s + s5 s + s6 s)) / 6))"
  by (simp add: calc_def int_to_double_exact to_double_6)

text \<open>
  Claim C5, as amended. For every \<open>StdResult\<close> object whose six subject marks have
  been set, \<open>calc()\<close> sets the field \<open>per\<close> to \<open>(s1+s2+s3+s4+s5+s6)/6.0\<close> rounded to
  \<open>float\<close>, the arithmetic average of the six marks up to floating-point rounding, and
  changes no other field. The rounded value lies within \<open>|average| / 2 ^ 23\<close> of the
  average, and is the average itself when the sum is six times an integer below
  \<open>2 ^ 24\<close> in magnitude. The sum is the sum of \<open>int\<close>.
\<close>

theorem calc_sets_per:
  "per (calc s) =
      to_float (to_double (real_of_int (sint (s1 s + s2 s + s3 s + s4 s + s5 s + s6 s)) / 6))
   \<and> calc s = s\<lparr>per := per (calc s)\<rparr>
   \<and> rollno (calc s) = rollno s \<and> name (calc s) = name s
   \<and> s1 (calc s) = s1 s \<and> s2 (calc s) = s2 s \<and> s3 (calc s) = s3 s
   \<and> s4 (calc s) = s4 s \<and> s5 (calc s) = s5 s \<and> s6 (calc s) = s6 s
   \<and> \<bar>per (calc s) - real_of_int (sint (s1 s + s2 s + s3 s + s4 s + s5 s + s6 s)) / 6\<bar>
        \<le> \<bar>real_of_int (sint (s1 s + s2 s + s3 s + s4 s + s5 s + s6 s)) / 6\<bar> / 2 ^ 23
   \<and> (sint (s1 s + s2 s + s3 s + s4 s + s5 s + s6 s) = 6 * k \<and> \<bar>k\<bar> < 2 ^ 24
        \<longrightarrow> per (calc s) = real_of_int k)"
proof -
  have p: "per (calc s) =
      to_float (to_double (real_of_int (sint (s1 s + s2 s + s3 s + s4 s + s5 s + s6 s)) / 6))"
    by (rule per_calc)
  have frame: "calc s = s\<lparr>per := per (calc s)\<rparr>"
    by (simp add: calc_def)
  have fields: "rollno (calc s) = rollno s \<and> name (calc s) = name s
   \<and> s1 (calc s) = s1 s \<and> s2 (calc s) = s2 s \<and> s3 (calc s) = s3 s
   \<and> s4 (calc s) = s4 s \<and> s5 (calc s) = s5 s \<and> s6 (calc s) = s6 s"
    by (simp add: calc_def)
  have err: "\<bar>per (calc s) - real_of_int (sint (s1 s + s2 s + s3 s + s4 s + s5 s + s6 s)) / 6\<bar>
        \<le> \<bar>real_of_int (sint (s1 s + s2 s + s3 s + s4 s + s5 s + s6 s)) / 6\<bar> / 2 ^ 23"
    unfolding p by (rule double_float_error)
  have exact: "sint (s1 s + s2 s + s3 s + s4 s + s5 s + s6 s) = 6 * k \<and> \<bar>k\<bar> < 2 ^ 24
        \<longrightarrow> per (calc s) = real_of_int k"
    unfolding p using to_double_dvd by blast
  from p frame fields err exact show ?thesis by blast
qed

text \<open>The theorem at six marks of 60: the sum is 360 and \<open>per\<close> becomes 60.\<close>

theorem calc_sets_per_witness:
  "sint (60 + 60 + 60 + 60 + 60 + 60 :: cint) = 6 * 60 \<and> \<bar>60 :: int\<bar> < 2 ^ 24
   \<and> per (calc \<lparr>rollno = 1, name = ''A'', s1 = 60, s2 = 60, s3 = 60, s4 = 60, s5 = 60,
                 s6 = 60, per = 0\<rparr>) = 60"
  using calc_sets_per [of "\<lparr>rollno = 1, name = ''A'', s1 = 60, s2 = 60, s3 = 60, s4 = 60,
                            s5 = 60, s6 = 60, per = 0\<rparr>" 60]
  by simp

text \<open>
  Claim C5 as stated, with \<open>per\<close> equal to the average, fails at the marks
  1, 0, 0, 0, 0, 0: \<open>per\<close> becomes \<open>11184811 / 2 ^ 26\<close> (about 0.16666667), which is
  neither the average \<open>1/6\<close> nor the \<open>double\<close> value of \<open>(s1+s2+s3+s4+s5+s6)/6.0\<close>.
\<close>

theorem calc_per_counterexample:
  "per (calc \<lparr>rollno = 1, name = ''A'', s1 = 1, s2 = 0, s3 = 0, s4 = 0, s5 = 0, s6 = 0,
              per = 0\<rparr>) = 11184811 / 67108864
   \<and> (11184811 / 67108864 :: real) \<noteq> (1 + 0 + 0 + 0 + 0 + 0) / 6
   \<and> (11184811 / 67108864 :: real) \<noteq> to_double ((1 + 0 + 0 + 0 + 0 + 0) / 6)"
proof -
  let ?s = "\<lparr>rollno = 1, name = ''A'', s1 = 1, s2 = 0, s3 = 0, s4 = 0, s5 = 0, s6 = 0,
            per = 0\<rparr>"
  have "per (calc ?s) = to_float (to_double (1 / 6))"
    by (simp add: per_calc)
  also have "\<dots> = to_float (6004799503160661 / 36028797018963968)"
    by (simp only: to_double_sixth)
  also have "\<dots> = 11184811 / 67108864"
    by (rule to_float_sixth)
  finally show ?thesis by (simp add: to_double_sixth)
qed

section \<open>Car::calculateFare\<close>

text \<open>
  Claim C6, as amended. For every \<open>Car\<close> with per-kilometre rate \<open>ratePerKm\<close> and every
  \<open>distance\<close> and \<open>days\<close>, the two-argument \<open>calculateFare(distance, days)\<close> computes
  the fare \<open>distance * ratePerKm\<close> converted to \<open>float\<close>, reduced by 10% up to
  floating-point rounding (multiplied by the \<open>double\<close> 0.9 and rounded back to
  \<open>float\<close>) exactly when \<open>days > 2\<close>, and left undiscounted when \<open>days \<le> 2\<close>. The
  discounted fare lies within \<open>|P| / 2 ^ 22\<close> of nine tenths of the product \<open>P\<close>, the
  undiscounted fare within \<open>|P| / 2 ^ 24\<close> of \<open>P\<close>, and it is \<open>P\<close> itself when \<open>P\<close> is
  below \<open>2 ^ 24\<close> in magnitude. The product is the product of \<open>int\<close>.
\<close>

theorem calculateFare_value:
  "(2 < sint days \<longrightarrow>
      calculateFare c distance days =
        to_float (to_double (to_float (real_of_int (sint (distance * ratePerKm c)))
                             * to_double (9 / 10)))
      \<and> \<bar>calculateFare c distance days - 9 / 10 * real_of_int (sint (distance * ratePerKm c))\<bar>
          \<le> \<bar>real_of_int (sint (distance * ratePerKm c))\<bar> / 2 ^ 22)
   \<and> (sint days \<le> 2 \<longrightarrow>
      calculateFare c distance days = to_float (real_of_int (sint (distance * ratePerKm c)))
      \<and> \<bar>calculateFare c distance days - real_of_int (sint (distance * ratePerKm c))\<bar>
          \<le> \<bar>real_of_int (sint (distance * ratePerKm c))\<bar> / 2 ^ 24)
   \<and> (sint days \<le> 2 \<and> \<bar>sint (distance * ratePerKm c)\<bar> < 2 ^ 24 \<longrightarrow>
      calculateFare c distance days = real_of_int (sint (distance * ratePerKm c)))"
proof -
  let ?P = "real_of_int (sint (distance * ratePerKm c))"
  have d0: "2 < sint days \<Longrightarrow> calculateFare c distance days =
        to_float (to_double (to_double (to_float ?P) * to_double (9 / 10)))"
    by (simp add: calculateFare_def int_to_float_def Let_def)
  have d: "2 < sint days \<Longrightarrow> calculateFare c distance days =
        to_float (to_double (to_float ?P * to_double (9 / 10)))"
    by (simp only: d0 to_double_to_float)
  have u: "sint days \<le> 2 \<Longrightarrow> calculateFare c distance days = to_float ?P"
    by (simp add: calculateFare_def int_to_float_def Let_def)
  have de: "2 < sint days \<Longrightarrow> \<bar>calculateFare c distance days - 9 / 10 * ?P\<bar> \<le> \<bar>?P\<bar> / 2 ^ 22"
    using discount_error [of ?P] by (simp only: d0)
  have ue: "sint days \<le> 2 \<Longrightarrow> \<bar>calculateFare c distance days - ?P\<bar> \<le> \<bar>?P\<bar> / 2 ^ 24"
    using round_to_precision_error [of 24 ?P] by (simp only: u to_float_def)
  have ux: "sint days \<le> 2 \<Longrightarrow> \<bar>sint (distance * ratePerKm c)\<bar> < 2 ^ 24 \<Longrightarrow>
      calculateFare c distance days = ?P"
    by (simp only: u to_float_of_int)
  from d u de ue ux show ?thesis by blast
qed

text \<open>
  The theorem at the car of \<open>main\<close>, \<open>Car c1("C100", "Car", 15)\<close>:
  \<open>calculateFare(100, 3)\<close> gives 1350 and \<open>calculateFare(100, 2)\<close> gives 1500.
\<close>

theorem calculateFare_value_witness:
  "2 < sint (3 :: cint) \<and> sint (2 :: cint) \<le> 2 \<and> \<bar>sint (100 * 15 :: cint)\<bar> < 2 ^ 24
   \<and> calculateFare \<lparr>vehicleId = ''C100'', type' = ''Car'', ratePerKm = 15\<rparr> 100 3 = 1350
   \<and> calculateFare \<lparr>vehicleId = ''C100'', type' = ''Car'', ratePerKm = 15\<rparr> 100 2 = 1500"
proof -
  let ?c = "\<lparr>vehicleId = ''C100'', type' = ''Car'', ratePerKm = 15\<rparr>"
  have h3: "2 < sint (3 :: cint)" and h2: "sint (2 :: cint) \<le> 2"
    and hp: "\<bar>sint (100 * 15 :: cint)\<bar> < 2 ^ 24"
    by simp_all
  have P: "real_of_int (sint (100 * ratePerKm ?c)) = 1500"
    by simp
  have "calculateFare ?c 100 3 =
          to_float (to_double (to_float (real_of_int (sint (100 * ratePerKm ?c)))
                               * to_double (9 / 10)))"
    using calculateFare_value [of 3 ?c 100] h3 by blast
  also have "\<dots> = 1350"
    by (simp only: P to_float_1500 to_double_nine_tenths to_double_1350 to_float_1350)
  finally have d: "calculateFare ?c 100 3 = 1350" .
  have "calculateFare ?c 100 2 = real_of_int (sint (100 * ratePerKm ?c))"
    using calculateFare_value [of 2 ?c 100] h2 hp by simp
  then have u: "calculateFare ?c 100 2 = 1500"
    by (simp only: P)
  from h3 h2 hp d u show ?thesis by blast
qed

text \<open>
  Claim C6 as stated, with the fare reduced by 10%, fails at rate 1, distance 1 and
  3 days: the fare is \<open>15099494 / 2 ^ 24\<close> (about 0.89999998), which is neither nine
  tenths of the product nor the \<open>double\<close> product of the fare and 0.9.
\<close>

theorem calculateFare_counterexample:
  "2 < sint (3 :: cint)
   \<and> calculateFare \<lparr>vehicleId = ''C1'', type' = ''Car'', ratePerKm = 1\<rparr> 1 3
       = 15099494 / 16777216
   \<and> (15099494 / 16777216 :: real) \<noteq> 9 / 10 * (1 * 1)
   \<and> (15099494 / 16777216 :: real) \<noteq> to_double (1 * 1 * to_double (9 / 10))"
proof -
  let ?c = "\<lparr>vehicleId = ''C1'', type' = ''Car'', ratePerKm = 1\<rparr>"
  have "calculateFare ?c 1 3 = to_float (to_double (to_double (to_float 1) * to_double (9 / 10)))"
    by (simp add: calculateFare_def int_to_float_def Let_def)
  also have "\<dots> = to_float (to_double (1 * (8106479329266893 / 9007199254740992)))"
    by (simp only: to_float_1 to_double_1 to_double_nine_tenths)
  also have "\<dots> = to_float (to_double (8106479329266893 / 9007199254740992))"
    by (simp only: mult_1)
  also have "\<dots> = 15099494 / 16777216"
    by (simp only: to_double_idem_nine_tenths to_float_nine_tenths)
  finally show ?thesis
    by (simp add: to_double_nine_tenths to_double_idem_nine_tenths)
qed

end
